theory Spec2Isabelle
  imports Complex_Main "HOL-Library.Multiset"
begin

section \<open>Data model\<close>

text \<open>
  The allocator of \<^verbatim>\<open>src/agents/data_enrichment.py\<close> is the method
  \<^verbatim>\<open>DataEnrichmentAgent.select_top_stocks(df, amount, count)\<close>. It works on a pandas
  table; a table is modelled as the list of its rows, in index order, and only the
  columns the method reads or writes are kept. The index labels of the table are taken
  to be unique (the table is built by \<^verbatim>\<open>pd.DataFrame(data)\<close> in
  \<^verbatim>\<open>fetch_yahoo_data\<close>, which gives a range index), so a label names one position.

  Numbers of the source are binary floating point. They are modelled as exact reals:
  rounding error is not modelled. What is modelled of the floating-point arithmetic is
  its behaviour at a zero divisor, where pandas does not raise but produces an infinity
  or a not-a-number value.
\<close>

record stock =
  symbol :: string
  current_price :: real
  market_cap :: real
  volume :: real
  quality_score :: real

text \<open>A value of a float column on which a division by a series maximum has acted.\<close>

datatype fval = Fin real | PInf | NInf | NaN

record ranked = stock +
  popularity_score :: fval

record holding = ranked +
  allocation_percentage :: real
  recommended_investment :: real
  shares_to_buy :: real
  actual_investment :: real

text \<open>
  The exceptions of the method: the division \<^verbatim>\<open>100.0 / len(top_stocks)\<close> on an empty
  selection, and the read of a column that a table does not have.
\<close>

datatype error = ZeroDivisionError | KeyError

section \<open>Arithmetic of the source\<close>

text \<open>\<^verbatim>\<open>Series.max()\<close>: the largest entry; not-a-number on an empty series.\<close>

fun series_max :: "real list \<Rightarrow> fval" where
  "series_max [] = NaN"
| "series_max (x # xs) = Fin (fold max xs x)"

text \<open>
  \<^verbatim>\<open>series / scalar\<close> on one entry: numpy division, which at a zero divisor gives
  not-a-number for \<open>0 / 0\<close> and a signed infinity otherwise.
\<close>

fun fdiv :: "real \<Rightarrow> fval \<Rightarrow> fval" where
  "fdiv x (Fin m) =
     (if m \<noteq> 0 then Fin (x / m)
      else if x = 0 then NaN
      else if 0 < x then PInf else NInf)"
| "fdiv x PInf = Fin 0"
| "fdiv x NInf = Fin 0"
| "fdiv x NaN = NaN"

text \<open>Multiplication of a column entry by a finite constant.\<close>

fun fmul :: "fval \<Rightarrow> real \<Rightarrow> fval" where
  "fmul (Fin a) c = Fin (a * c)"
| "fmul PInf c = (if 0 < c then PInf else if c < 0 then NInf else NaN)"
| "fmul NInf c = (if 0 < c then NInf else if c < 0 then PInf else NaN)"
| "fmul NaN c = NaN"

fun fadd :: "fval \<Rightarrow> fval \<Rightarrow> fval" where
  "fadd (Fin a) (Fin b) = Fin (a + b)"
| "fadd NaN _ = NaN"
| "fadd _ NaN = NaN"
| "fadd PInf NInf = NaN"
| "fadd NInf PInf = NaN"
| "fadd PInf _ = PInf"
| "fadd _ PInf = PInf"
| "fadd NInf _ = NInf"
| "fadd _ NInf = NInf"

text \<open>\<^verbatim>\<open>int(x)\<close> on a float: truncation towards zero.\<close>

definition py_int :: "real \<Rightarrow> int" where
  "py_int x = (if 0 \<le> x then \<lfloor>x\<rfloor> else \<lceil>x\<rceil>)"

text \<open>Rounding to the nearest integer, a tie going to the even neighbour.\<close>

definition round_half_even :: "real \<Rightarrow> int" where
  "round_half_even x =
     (let f = \<lfloor>x\<rfloor>; d = x - of_int f
      in if d < 1 / 2 then f else if 1 / 2 < d then f + 1 else if even f then f else f + 1)"

text \<open>\<^verbatim>\<open>round(x, 2)\<close>: two decimal places.\<close>

definition py_round2 :: "real \<Rightarrow> real" where
  "py_round2 x = of_int (round_half_even (x * 100)) / 100"

section \<open>Ranking and selection (lines 238 to 255)\<close>

text \<open>
  \<^verbatim>\<open>df['popularity_score'] = (df['market_cap'] / df['market_cap'].max() * 100) * 0.35
     + (df['volume'] / df['volume'].max() * 100) * 0.25 + df['quality_score'] * 0.40\<close>
\<close>

definition normalized :: "real \<Rightarrow> fval \<Rightarrow> fval" where
  "normalized x m = fmul (fdiv x m) 100"

definition popularity :: "stock list \<Rightarrow> ranked list" where
  "popularity df =
     (let mc_max = series_max (map market_cap df);
          vol_max = series_max (map volume df)
      in map (\<lambda>r. \<lparr>symbol = symbol r, current_price = current_price r,
                     market_cap = market_cap r, volume = volume r,
                     quality_score = quality_score r,
                     popularity_score =
                       fadd (fadd (fmul (normalized (market_cap r) mc_max) 0.35)
                                  (fmul (normalized (volume r) vol_max) 0.25))
                            (Fin (quality_score r * 0.40))\<rparr>) df)"

text \<open>
  \<^verbatim>\<open>df.head(n)\<close>: the first \<open>n\<close> rows; for a negative \<open>n\<close>, all rows but the
  last \<open>- n\<close>.
\<close>

definition head_rows :: "int \<Rightarrow> 'a list \<Rightarrow> 'a list" where
  "head_rows n xs = (if 0 \<le> n then take (nat n) xs else take (length xs - nat (- n)) xs)"

text \<open>
  \<^verbatim>\<open>df.sort_values('popularity_score', ascending=False)\<close> is a call into pandas, whose
  code is not part of the repository. The call leaves the sorting algorithm at the
  default \<^verbatim>\<open>kind='quicksort'\<close>, which pandas documents as not stable, and the position of
  missing values at the default \<^verbatim>\<open>na_position='last'\<close>. The sort is therefore a parameter
  \<open>srt\<close> of the method. What the documentation promises of it is that the rows are
  rearranged, that not-a-number scores come last and that the other scores do not
  increase along the result; \<open>key_ge\<close> is that order on scores.
\<close>

fun key_ge :: "fval \<Rightarrow> fval \<Rightarrow> bool" where
  "key_ge _ NaN = True"
| "key_ge NaN _ = False"
| "key_ge PInf _ = True"
| "key_ge _ PInf = False"
| "key_ge _ NInf = True"
| "key_ge NInf _ = False"
| "key_ge (Fin a) (Fin b) = (b \<le> a)"

definition rank_and_select ::
    "(ranked list \<Rightarrow> ranked list) \<Rightarrow> stock list \<Rightarrow> int \<Rightarrow> ranked list" where
  "rank_and_select srt df n = head_rows n (srt (popularity df))"

section \<open>Allocation and share quantization (lines 257 to 304)\<close>

text \<open>
  \<^verbatim>\<open>total_score = top_stocks['quality_score'].sum()\<close>; the equal split
  \<^verbatim>\<open>100.0 / len(top_stocks)\<close> is a division of Python numbers and raises on an empty
  selection.
\<close>

definition allocation_percentages :: "ranked list \<Rightarrow> error + real list" where
  "allocation_percentages sel =
     (let total_score = sum_list (map quality_score sel)
      in if total_score = 0 then
           (if length sel = 0 then Inl ZeroDivisionError
            else Inr (map (\<lambda>r. 100 / real (length sel)) sel))
         else Inr (map (\<lambda>r. quality_score r / total_score * 100) sel))"

text \<open>The inner function \<^verbatim>\<open>calculate_shares(row)\<close>, which closes over \<open>amount\<close>.\<close>

definition calculate_shares :: "real \<Rightarrow> real \<Rightarrow> real \<Rightarrow> real" where
  "calculate_shares amount price allocated =
     (if price \<le> 0 then 0
      else let exact_shares = allocated / price
           in if amount < 10000 then py_round2 exact_shares
              else if 1 / 2 \<le> exact_shares then of_int (max 1 (py_int exact_shares))
              else 0)"

definition allocate_row :: "real \<Rightarrow> ranked \<Rightarrow> real \<Rightarrow> holding" where
  "allocate_row amount r pct =
     (let allocated = amount * pct / 100;
          shares = calculate_shares amount (current_price r) allocated
      in \<lparr>symbol = symbol r, current_price = current_price r,
          market_cap = market_cap r, volume = volume r,
          quality_score = quality_score r, popularity_score = popularity_score r,
          allocation_percentage = pct,
          recommended_investment = allocated,
          shares_to_buy = shares,
          actual_investment = shares * current_price r\<rparr>)"

definition allocate :: "real \<Rightarrow> ranked list \<Rightarrow> error + holding list" where
  "allocate amount sel =
     (case allocation_percentages sel of
        Inl e \<Rightarrow> Inl e
      | Inr pcts \<Rightarrow> Inr (map2 (allocate_row amount) sel pcts))"

section \<open>Budget-utilization top-up (lines 306 to 330)\<close>

definition total_invested :: "holding list \<Rightarrow> real" where
  "total_invested hs = sum_list (map actual_investment hs)"

text \<open>
  \<^verbatim>\<open>affordable = top_stocks[top_stocks['current_price'] <= (amount - total_invested)]\<close>
  and \<^verbatim>\<open>affordable['current_price'].idxmin()\<close>: the position of the first row of least
  price among the rows whose price is at most what remains; \<open>None\<close> when
  \<^verbatim>\<open>affordable.empty\<close>.
\<close>

definition cheapest_affordable :: "real \<Rightarrow> holding list \<Rightarrow> nat option" where
  "cheapest_affordable remaining hs =
     (let affordable = filter (\<lambda>i. current_price (hs ! i) \<le> remaining) [0..<length hs]
      in if affordable = [] then None
         else Some (arg_min_list (\<lambda>i. current_price (hs ! i)) affordable))"

text \<open>
  \<^verbatim>\<open>top_stocks.loc[cheapest_idx, 'shares_to_buy'] += 1\<close>, then the row's
  \<^verbatim>\<open>actual_investment\<close> is set to its share count times its price.
\<close>

definition add_share :: "nat \<Rightarrow> holding list \<Rightarrow> holding list" where
  "add_share i hs =
     (let h = hs ! i; shares = shares_to_buy h + 1
      in hs[i := h\<lparr>shares_to_buy := shares,
                    actual_investment := shares * current_price h\<rparr>])"

text \<open>
  The \<^verbatim>\<open>while total_invested < amount * 0.95\<close> loop. The source puts no bound on the
  number of rounds, so the loop is a partial function: \<open>None\<close> is a run that never
  leaves the loop.
\<close>

partial_function (option) rebalance_loop :: "real \<Rightarrow> holding list \<Rightarrow> holding list option" where
  "rebalance_loop amount hs =
     (if total_invested hs < amount * 0.95 then
        (case cheapest_affordable (amount - total_invested hs) hs of
           None \<Rightarrow> Some hs
         | Some i \<Rightarrow> rebalance_loop amount (add_share i hs))
      else Some hs)"

definition rebalance :: "real \<Rightarrow> holding list \<Rightarrow> holding list option" where
  "rebalance amount hs =
     (if total_invested hs < amount * 0.8 then rebalance_loop amount hs else Some hs)"

text \<open>\<^verbatim>\<open>utilization = (total_invested / amount) * 100\<close>, which the method only logs.\<close>

definition utilization :: "real \<Rightarrow> holding list \<Rightarrow> real" where
  "utilization amount hs = total_invested hs / amount * 100"

text \<open>
  The invariant of the top-up loop: every row's \<^verbatim>\<open>actual_investment\<close> is its share
  count times its price.
\<close>

definition consistent :: "holding list \<Rightarrow> bool" where
  "consistent hs = (\<forall>h \<in> set hs. actual_investment h = shares_to_buy h * current_price h)"

text \<open>
  The first \<open>k\<close> rounds of the same loop: \<open>Some\<close> when the loop has been left within
  \<open>k\<close> rounds, \<open>None\<close> when it is still running after them.
\<close>

fun rebalance_rounds :: "nat \<Rightarrow> real \<Rightarrow> holding list \<Rightarrow> holding list option" where
  "rebalance_rounds k amount hs =
     (if total_invested hs < amount * 0.95 then
        (case cheapest_affordable (amount - total_invested hs) hs of
           None \<Rightarrow> Some hs
         | Some i \<Rightarrow>
             (case k of 0 \<Rightarrow> None | Suc j \<Rightarrow> rebalance_rounds j amount (add_share i hs)))
      else Some hs)"

section \<open>The method on objects\<close>

text \<open>
  A pandas table is a mutable object and \<^verbatim>\<open>df\<close> is a reference to it. The store is
  the list of the objects alive, an address is a position in it, and an object is never
  freed. A frame is tagged by the columns it has: the input columns, those and the
  popularity score, or all of them. Reading a column that a frame does not have raises
  \<^verbatim>\<open>KeyError\<close>.
\<close>

datatype frame = Stocks "stock list" | Ranked "ranked list" | Holdings "holding list"

type_synonym addr = nat

type_synonym store = "frame list"

fun candidates :: "frame \<Rightarrow> stock list" where
  "candidates (Stocks rows) = rows"
| "candidates (Ranked rows) = map stock.truncate rows"
| "candidates (Holdings rows) = map stock.truncate rows"

text \<open>A new object: \<^verbatim>\<open>.copy()\<close>, \<^verbatim>\<open>.sort_values(...)\<close> and \<^verbatim>\<open>.head(n)\<close> each return one.\<close>

definition new_frame :: "store \<Rightarrow> frame \<Rightarrow> addr \<times> store" where
  "new_frame s f = (length s, s @ [f])"

text \<open>
  \<^verbatim>\<open>select_top_stocks(df, amount, count)\<close>. The result is \<open>None\<close> when the top-up loop
  never ends; otherwise it is the store the call leaves and either the exception raised
  or the address of the table returned. The objects in the store are those the method
  binds to a name: the input \<^verbatim>\<open>df\<close>, its copy, the sorted table and \<^verbatim>\<open>top_stocks\<close>.
  The four column assignments of lines 264 to 304 go to the one object
  \<^verbatim>\<open>top_stocks\<close> and are one write of the model; so are the writes of the rounds of the
  top-up loop, which the model makes with the rows the loop ends with. The log lines
  are left out.
\<close>

definition select_top_stocks ::
    "(ranked list \<Rightarrow> ranked list) \<Rightarrow> store \<Rightarrow> addr \<Rightarrow> real \<Rightarrow> int
       \<Rightarrow> ((error + addr) \<times> store) option" where
  "select_top_stocks srt s df amount n =
     (if candidates (s ! df) = [] then Some (Inr df, s)  \<comment> \<open>\<^verbatim>\<open>if df.empty: return df\<close>\<close>
      else
        let (df1, s1) = new_frame s (s ! df);  \<comment> \<open>\<^verbatim>\<open>df = df.copy()\<close>\<close>
            s2 = s1[df1 := Ranked (popularity (candidates (s1 ! df1)))]
            \<comment> \<open>\<^verbatim>\<open>df['popularity_score'] = ...\<close>\<close>
        in case s2 ! df1 of
             Ranked scored \<Rightarrow>
               let (df2, s3) = new_frame s2 (Ranked (srt scored))
               \<comment> \<open>\<^verbatim>\<open>df = df.sort_values('popularity_score', ascending=False)\<close>\<close>
               in (case s3 ! df2 of
                     Ranked sorted_rows \<Rightarrow>
                       let (top_stocks, s4) = new_frame s3 (Ranked (head_rows n sorted_rows))
                       \<comment> \<open>\<^verbatim>\<open>top_stocks = df.head(count).copy()\<close>\<close>
                       in (case s4 ! top_stocks of
                             Ranked sel \<Rightarrow>
                               (case allocate amount sel of
                                  Inl e \<Rightarrow> Some (Inl e, s4)
                                | Inr hs \<Rightarrow>
                                    let s5 = s4[top_stocks := Holdings hs]
                                    \<comment> \<open>\<^verbatim>\<open>top_stocks['allocation_percentage'] = ...\<close> to
                                       \<^verbatim>\<open>top_stocks['actual_investment'] = ...\<close>\<close>
                                    in (case s5 ! top_stocks of
                                          Holdings hs0 \<Rightarrow>
                                            (case rebalance amount hs0 of
                                               None \<Rightarrow> None
                                             | Some hs1 \<Rightarrow>
                                                 Some (Inr top_stocks,
                                                       s5[top_stocks := Holdings hs1]))
                                                 \<comment> \<open>\<^verbatim>\<open>return top_stocks\<close>\<close>
                                        | _ \<Rightarrow> Some (Inl KeyError, s5)))
                           | _ \<Rightarrow> Some (Inl KeyError, s4))
                   | _ \<Rightarrow> Some (Inl KeyError, s3))
           | _ \<Rightarrow> Some (Inl KeyError, s2))"

section \<open>The default sort of the library\<close>

text \<open>
  The sort that the call \<^verbatim>\<open>df.sort_values('popularity_score', ascending=False)\<close>
  reaches is code of pandas and numpy, not of the repository. It is modelled here from
  those libraries, to follow the order of rows of equal score on a table of more than a
  few rows: \<^verbatim>\<open>nargsort\<close> of pandas sets the not-a-number scores aside, reverses the
  others, asks numpy for \<^verbatim>\<open>argsort(kind='quicksort')\<close>, reverses the answer and puts the
  not-a-number rows last; numpy's portable quicksort on an index array (\<^verbatim>\<open>aquicksort\<close>)
  partitions a segment of more than 17 entries around the median of its first, middle
  and last entry, keeps the larger part on a stack, and sorts a segment of at most 17
  entries by insertion. The pointers \<^verbatim>\<open>pi\<close> and \<^verbatim>\<open>pj\<close> of that code are \<open>i\<close> and \<open>j\<close>
  here.
\<close>

text \<open>The comparison of numpy on doubles: a not-a-number is the largest value.\<close>

fun fless :: "fval \<Rightarrow> fval \<Rightarrow> bool" where
  "fless NaN _ = False"
| "fless _ NaN = True"
| "fless PInf _ = False"
| "fless _ PInf = True"
| "fless _ NInf = False"
| "fless NInf _ = True"
| "fless (Fin a) (Fin b) = (a < b)"

definition intp_swap :: "nat list \<Rightarrow> nat \<Rightarrow> nat \<Rightarrow> nat list" where
  "intp_swap a i j = a[i := a ! j, j := a ! i]"

text \<open>
  \<^verbatim>\<open>do { ++pi; } while (less(v[*pi], vp))\<close> from a start \<open>i\<close>, and the same downwards
  for \<^verbatim>\<open>pj\<close>. The source has no test on the end of the segment: the median of three
  leaves an entry that stops each scan. The tests \<open>i < pr\<close> and \<open>pl < j\<close> of the model
  are never the ones that stop it.
\<close>

function scan_up :: "fval list \<Rightarrow> nat list \<Rightarrow> fval \<Rightarrow> nat \<Rightarrow> nat \<Rightarrow> nat" where
  "scan_up v a vp pr i =
     (if i < pr \<and> fless (v ! (a ! i)) vp then scan_up v a vp pr (Suc i) else i)"
  by pat_completeness auto
termination
  by (relation "measure (\<lambda>(v, a, vp, pr, i). pr - i)") auto

function scan_down :: "fval list \<Rightarrow> nat list \<Rightarrow> fval \<Rightarrow> nat \<Rightarrow> nat \<Rightarrow> nat" where
  "scan_down v a vp pl j =
     (if pl < j \<and> fless vp (v ! (a ! j)) then scan_down v a vp pl (j - 1) else j)"
  by pat_completeness auto
termination
  by (relation "measure (\<lambda>(v, a, vp, pl, j). j)") auto

declare scan_up.simps [simp del] scan_down.simps [simp del]

lemma scan_up_bounds: "i \<le> scan_up v a vp pr i \<and> scan_up v a vp pr i \<le> max i pr"
proof (induction v a vp pr i rule: scan_up.induct)
  case (1 v a vp pr i)
  show ?case
  proof (cases "i < pr \<and> fless (v ! (a ! i)) vp")
    case True
    with "1.IH" show ?thesis by (subst (1 2) scan_up.simps) auto
  next
    case False
    then show ?thesis by (subst (1 2) scan_up.simps) auto
  qed
qed

lemma scan_down_le: "scan_down v a vp pl j \<le> j"
proof (induction v a vp pl j rule: scan_down.induct)
  case (1 v a vp pl j)
  show ?case
  proof (cases "pl < j \<and> fless vp (v ! (a ! j))")
    case True
    with "1.IH" show ?thesis by (subst scan_down.simps) auto
  next
    case False
    then show ?thesis by (subst scan_down.simps) auto
  qed
qed

text \<open>The \<^verbatim>\<open>for (;;)\<close> loop of the partition: scan, stop when the pointers meet, swap.\<close>

function part_loop ::
    "fval list \<Rightarrow> nat list \<Rightarrow> fval \<Rightarrow> nat \<Rightarrow> nat \<Rightarrow> nat \<Rightarrow> nat \<Rightarrow> nat list \<times> nat" where
  "part_loop v a vp pl pr i j =
     (let i' = scan_up v a vp pr (Suc i);
          j' = scan_down v a vp pl (j - 1)
      in if j' \<le> i' then (a, i')
         else part_loop v (intp_swap a i' j') vp pl pr i' j')"
  by pat_completeness auto
termination
proof (relation "measure (\<lambda>(v, a, vp, pl, pr, i, j). j - i)")
  show "wf (measure (\<lambda>(v, a, vp, pl, pr, i, j). j - i))" by simp
next
  fix v a vp pl pr i j x xa
  assume x: "x = scan_up v a vp pr (Suc i)" and xa: "xa = scan_down v a vp pl (j - 1)"
    and n: "\<not> xa \<le> x"
  from x have "Suc i \<le> x" using scan_up_bounds [of "Suc i" v a vp pr] by simp
  moreover from xa have "xa \<le> j - 1" using scan_down_le [of v a vp pl "j - 1"] by simp
  ultimately show "((v, intp_swap a x xa, vp, pl, pr, x, xa), (v, a, vp, pl, pr, i, j))
        \<in> measure (\<lambda>(v, a, vp, pl, pr, i, j). j - i)"
    using n by simp
qed

declare part_loop.simps [simp del]

text \<open>
  One partition of the segment from \<open>pl\<close> to \<open>pr\<close>: the median of three goes to
  \<open>pr - 1\<close> as the pivot, and the result is the array and the place of the pivot.
\<close>

definition aquicksort_partition ::
    "fval list \<Rightarrow> nat list \<Rightarrow> nat \<Rightarrow> nat \<Rightarrow> nat list \<times> nat" where
  "aquicksort_partition v a pl pr =
     (let pm = pl + (pr - pl) div 2;
          a1 = (if fless (v ! (a ! pm)) (v ! (a ! pl)) then intp_swap a pm pl else a);
          a2 = (if fless (v ! (a1 ! pr)) (v ! (a1 ! pm)) then intp_swap a1 pr pm else a1);
          a3 = (if fless (v ! (a2 ! pm)) (v ! (a2 ! pl)) then intp_swap a2 pm pl else a2);
          vp = v ! (a3 ! pm);
          a4 = intp_swap a3 pm (pr - 1);
          (a5, i) = part_loop v a4 vp pl pr pl (pr - 1)
      in (intp_swap a5 i (pr - 1), i))"

text \<open>The insertion sort of a segment.\<close>

function ins_loop :: "fval list \<Rightarrow> nat list \<Rightarrow> nat \<Rightarrow> nat \<Rightarrow> nat \<Rightarrow> nat list" where
  "ins_loop v a pl vi j =
     (if pl < j \<and> fless (v ! vi) (v ! (a ! (j - 1)))
      then ins_loop v (a[j := a ! (j - 1)]) pl vi (j - 1)
      else a[j := vi])"
  by pat_completeness auto
termination
  by (relation "measure (\<lambda>(v, a, pl, vi, j). j)") auto

declare ins_loop.simps [simp del]

definition insertion :: "fval list \<Rightarrow> nat list \<Rightarrow> nat \<Rightarrow> nat \<Rightarrow> nat list" where
  "insertion v a pl pr = fold (\<lambda>i a. ins_loop v a pl (a ! i) i) [Suc pl..<Suc pr] a"

lemma part_loop_bounds:
  "i < pr \<Longrightarrow> j \<le> pr \<Longrightarrow>
     i < snd (part_loop v a vp pl pr i j) \<and> snd (part_loop v a vp pl pr i j) \<le> pr"
proof (induction v a vp pl pr i j rule: part_loop.induct)
  case (1 v a vp pl pr i j)
  let ?i = "scan_up v a vp pr (Suc i)" and ?j = "scan_down v a vp pl (j - 1)"
  from "1.prems" have i: "Suc i \<le> ?i" "?i \<le> pr"
    using scan_up_bounds [of "Suc i" v a vp pr] by auto
  from "1.prems" have j: "?j \<le> pr"
    using scan_down_le [of v a vp pl "j - 1"] by auto
  show ?case
  proof (cases "?j \<le> ?i")
    case True
    with i show ?thesis by (subst (1 2) part_loop.simps) (simp add: Let_def)
  next
    case False
    with i j have "?i < pr" by simp
    with False j "1.IH" [OF refl refl False]
    have "?i < snd (part_loop v (intp_swap a ?i ?j) vp pl pr ?i ?j)
          \<and> snd (part_loop v (intp_swap a ?i ?j) vp pl pr ?i ?j) \<le> pr"
      by simp
    with False i show ?thesis by (subst (1 2) part_loop.simps) (simp add: Let_def)
  qed
qed

lemma aquicksort_partition_bounds:
  assumes "aquicksort_partition v a pl pr = (a', i)" and "pl < pr"
  shows "pl < i \<and> i \<le> pr"
proof -
  from assms(1) obtain a4 vp where "i = snd (part_loop v a4 vp pl pr pl (pr - 1))"
    by (auto simp: aquicksort_partition_def Let_def case_prod_beta)
  with assms(2) part_loop_bounds [of pl pr "pr - 1" v a4 vp pl] show ?thesis by simp
qed

definition seg_weight :: "nat \<times> nat \<times> int \<Rightarrow> nat" where
  "seg_weight s = (case s of (l, r, d) \<Rightarrow> 2 * (Suc r - l) + 1)"

text \<open>
  The main loop, with its stack of segments and of partition depths. \<open>popped\<close> is true
  at the head of the outer loop, where the source tests \<^verbatim>\<open>cdepth < 0\<close>; the inner
  \<^verbatim>\<open>while\<close>, which partitions the smaller part at once, does not test it. When the
  depth is used up numpy sorts the segment by heapsort; that fallback is not modelled,
  and the model sorts the segment by insertion instead. No run in this theory reaches
  it.
\<close>

function aquicksort_loop ::
    "fval list \<Rightarrow> bool \<Rightarrow> nat list \<Rightarrow> nat \<Rightarrow> nat \<Rightarrow> int \<Rightarrow> (nat \<times> nat \<times> int) list
       \<Rightarrow> nat list" where
  "aquicksort_loop v popped a pl pr cdepth stack =
     (if popped \<and> cdepth < 0 then
        (case stack of
           [] \<Rightarrow> insertion v a pl pr
         | (l, r, d) # rest \<Rightarrow> aquicksort_loop v True (insertion v a pl pr) l r d rest)
      else if 16 < pr - pl then
        (let (a', i) = aquicksort_partition v a pl pr; d = cdepth - 1
         in if i - pl < pr - i
            then aquicksort_loop v False a' pl (i - 1) d ((i + 1, pr, d) # stack)
            else aquicksort_loop v False a' (i + 1) pr d ((pl, i - 1, d) # stack))
      else
        (case stack of
           [] \<Rightarrow> insertion v a pl pr
         | (l, r, d) # rest \<Rightarrow> aquicksort_loop v True (insertion v a pl pr) l r d rest))"
  by pat_completeness auto
termination
proof (relation "measure (\<lambda>(v, popped, a, pl, pr, cdepth, stack).
          seg_weight (pl, pr, cdepth) + sum_list (map seg_weight stack))")
  show "wf (measure (\<lambda>(v, popped, a, pl, pr, cdepth, stack).
          seg_weight (pl, pr, cdepth) + sum_list (map seg_weight stack)))" by simp
qed (auto simp: seg_weight_def dest!: aquicksort_partition_bounds [OF sym])

declare aquicksort_loop.simps [simp del]

text \<open>\<^verbatim>\<open>npy_get_msb\<close>: the position of the highest bit; the depth allowed is twice that.\<close>

fun npy_get_msb :: "nat \<Rightarrow> nat" where
  "npy_get_msb n = (if n < 2 then 0 else Suc (npy_get_msb (n div 2)))"

declare npy_get_msb.simps [simp del]

definition argsort_quicksort :: "fval list \<Rightarrow> nat list" where
  "argsort_quicksort v =
     aquicksort_loop v True [0..<length v] 0 (length v - 1)
       (2 * int (npy_get_msb (length v))) []"

text \<open>\<^verbatim>\<open>nargsort(items, kind='quicksort', ascending=False, na_position='last')\<close>.\<close>

definition nargsort :: "fval list \<Rightarrow> nat list" where
  "nargsort items =
     (let idx = [0..<length items];
          non_nan_idx = filter (\<lambda>k. items ! k \<noteq> NaN) idx;
          nan_idx = filter (\<lambda>k. items ! k = NaN) idx;
          non_nans = rev (map (\<lambda>k. items ! k) non_nan_idx);
          non_nan_idx = rev non_nan_idx;
          indexer = map (\<lambda>k. non_nan_idx ! k) (argsort_quicksort non_nans)
      in rev indexer @ nan_idx)"

definition sort_values :: "ranked list \<Rightarrow> ranked list" where
  "sort_values df = map (\<lambda>k. df ! k) (nargsort (map popularity_score df))"

section \<open>Example data\<close>

text \<open>
  A sort by insertion, which keeps rows of equal score in their input order; it stands
  for the library's sort in the runs on tables of one or two rows.
\<close>

fun insert_first :: "ranked \<Rightarrow> ranked list \<Rightarrow> ranked list" where
  "insert_first x [] = [x]"
| "insert_first x (y # ys) =
     (if key_ge (popularity_score x) (popularity_score y) then x # y # ys
      else y # insert_first x ys)"

definition sort_ties_first :: "ranked list \<Rightarrow> ranked list" where
  "sort_ties_first xs = foldr insert_first xs []"

text \<open>The two candidates of the scenarios of the specification.\<close>

definition cand_A :: stock where
  "cand_A = \<lparr>symbol = ''A'', current_price = 100, market_cap = 1000, volume = 500,
             quality_score = 80\<rparr>"

definition cand_B :: stock where
  "cand_B = \<lparr>symbol = ''B'', current_price = 50, market_cap = 500, volume = 1000,
             quality_score = 20\<rparr>"



definition cand_Z :: stock where
  "cand_Z = \<lparr>symbol = ''Z'', current_price = 0, market_cap = 2000, volume = 300,
             quality_score = 50\<rparr>"

text \<open>
  Two candidates of equal popularity, one dearer than half a budget of 10000; the rows
  the allocation gives them there, the second with its share count left open; and the
  row of the candidate with no price at a budget of 1000.
\<close>

definition cand_X :: stock where
  "cand_X = \<lparr>symbol = ''X'', current_price = 11000, market_cap = 1000, volume = 1000,
             quality_score = 50\<rparr>"

definition cand_Y :: stock where
  "cand_Y = \<lparr>symbol = ''Y'', current_price = 1000, market_cap = 1000, volume = 1000,
             quality_score = 50\<rparr>"

definition held_X :: holding where
  "held_X = \<lparr>symbol = ''X'', current_price = 11000, market_cap = 1000, volume = 1000,
             quality_score = 50, popularity_score = Fin 80,
             allocation_percentage = 50, recommended_investment = 5000,
             shares_to_buy = 0, actual_investment = 0\<rparr>"

definition held_Y :: "real \<Rightarrow> holding" where
  "held_Y k = \<lparr>symbol = ''Y'', current_price = 1000, market_cap = 1000, volume = 1000,
               quality_score = 50, popularity_score = Fin 80,
               allocation_percentage = 50, recommended_investment = 5000,
               shares_to_buy = k, actual_investment = k * 1000\<rparr>"

definition held_Z :: "real \<Rightarrow> holding" where
  "held_Z k = \<lparr>symbol = ''Z'', current_price = 0, market_cap = 2000, volume = 300,
               quality_score = 50, popularity_score = Fin 80,
               allocation_percentage = 100, recommended_investment = 1000,
               shares_to_buy = k, actual_investment = 0\<rparr>"


section \<open>Properties\<close>

lemma popularity_AB:
  "popularity [cand_A, cand_B] =
     [\<lparr>symbol = ''A'', current_price = 100, market_cap = 1000, volume = 500,
       quality_score = 80, popularity_score = Fin (159 / 2)\<rparr>,
      \<lparr>symbol = ''B'', current_price = 50, market_cap = 500, volume = 1000,
       quality_score = 20, popularity_score = Fin (101 / 2)\<rparr>]"
  by (simp add: popularity_def normalized_def cand_A_def cand_B_def)

lemma percentages_AB: "allocation_percentages (popularity [cand_A, cand_B]) = Inr [80, 20]"
  by (simp add: popularity_AB allocation_percentages_def)

lemma py_int_nonneg: "0 \<le> x \<Longrightarrow> py_int x = \<lfloor>x\<rfloor>"
  by (simp add: py_int_def)

lemma allocate_rows:
  assumes "allocate amount sel = Inr hs"
  obtains pcts where "allocation_percentages sel = Inr pcts"
    and "length pcts = length sel"
    and "hs = map2 (allocate_row amount) sel pcts"
proof -
  from assms obtain pcts where p: "allocation_percentages sel = Inr pcts"
    and h: "hs = map2 (allocate_row amount) sel pcts"
    by (auto simp: allocate_def split: sum.splits)
  from p have "length pcts = length sel"
    by (auto simp: allocation_percentages_def Let_def split: if_splits)
  with p h show thesis using that by blast
qed

lemma allocate_row_shares:
  "shares_to_buy (allocate_row amount r pct) =
     calculate_shares amount (current_price (allocate_row amount r pct))
       (recommended_investment (allocate_row amount r pct))"
  by (simp add: allocate_row_def Let_def)

lemma holding_is_allocate_row:
  assumes "allocate amount sel = Inr hs" and "h \<in> set hs"
  obtains r pct where "h = allocate_row amount r pct" and "r \<in> set sel"
proof -
  from assms(1) obtain pcts where l: "length pcts = length sel"
    and hs: "hs = map2 (allocate_row amount) sel pcts"
    by (rule allocate_rows)
  from assms(2) hs obtain r pct where "(r, pct) \<in> set (zip sel pcts)"
    and "h = allocate_row amount r pct"
    by auto
  moreover then have "r \<in> set sel" by (auto dest: set_zip_leftD)
  ultimately show thesis using that by blast
qed

subsection \<open>The top-up loop\<close>

lemma sum_list_map_update:
  fixes f :: "'a \<Rightarrow> real"
  shows "i < length xs \<Longrightarrow>
    sum_list (map f (xs[i := y])) = sum_list (map f xs) - f (xs ! i) + f y"
proof (induction xs arbitrary: i)
  case Nil
  then show ?case by simp
next
  case (Cons x xs)
  then show ?case by (cases i) simp_all
qed

lemma cheapest_affordable_Some:
  assumes "cheapest_affordable remaining hs = Some i"
  shows "i < length hs"
    and "current_price (hs ! i) \<le> remaining"
    and "\<And>j. j < length hs \<Longrightarrow> current_price (hs ! j) \<le> remaining \<Longrightarrow>
           current_price (hs ! i) \<le> current_price (hs ! j)"
proof -
  let ?aff = "filter (\<lambda>i. current_price (hs ! i) \<le> remaining) [0..<length hs]"
  let ?f = "\<lambda>i. current_price (hs ! i)"
  from assms have ne: "?aff \<noteq> []" and i: "i = arg_min_list ?f ?aff"
    by (auto simp: cheapest_affordable_def Let_def split: if_splits)
  from ne have "arg_min_list ?f ?aff \<in> set ?aff" by (rule arg_min_list_in)
  with i have mem: "i \<in> set ?aff" by simp
  then show "i < length hs" and "current_price (hs ! i) \<le> remaining" by auto
  fix j assume j: "j < length hs" "current_price (hs ! j) \<le> remaining"
  then have "j \<in> set ?aff" by simp
  moreover from ne have "?f (arg_min_list ?f ?aff) = Min (?f ` set ?aff)"
    by (rule f_arg_min_list_f)
  ultimately show "current_price (hs ! i) \<le> current_price (hs ! j)"
    using i by (metis (no_types, lifting) List.finite_set Min_le finite_imageI imageI)
qed

lemma cheapest_affordable_None:
  assumes "cheapest_affordable remaining hs = None" and "j < length hs"
  shows "remaining < current_price (hs ! j)"
proof (rule ccontr)
  assume "\<not> remaining < current_price (hs ! j)"
  with assms(2) have "j \<in> set (filter (\<lambda>i. current_price (hs ! i) \<le> remaining) [0..<length hs])"
    by simp
  then have "filter (\<lambda>i. current_price (hs ! i) \<le> remaining) [0..<length hs] \<noteq> []"
    by (metis empty_iff empty_set)
  with assms(1) show False by (simp add: cheapest_affordable_def Let_def)
qed

lemma length_add_share: "length (add_share i hs) = length hs"
  by (simp add: add_share_def Let_def)

lemma price_add_share: "map current_price (add_share i hs) = map current_price hs"
proof (cases "i < length hs")
  case True
  then show ?thesis
    by (intro nth_equalityI) (auto simp: add_share_def Let_def nth_list_update)
next
  case False
  then have "length hs \<le> i" by simp
  then show ?thesis by (simp add: add_share_def Let_def list_update_beyond)
qed


lemma consistent_nth: "consistent hs \<Longrightarrow> i < length hs \<Longrightarrow>
    actual_investment (hs ! i) = shares_to_buy (hs ! i) * current_price (hs ! i)"
  by (simp add: consistent_def)

lemma consistent_add_share: "consistent hs \<Longrightarrow> consistent (add_share i hs)"
  unfolding consistent_def add_share_def Let_def
  by (auto dest!: set_update_subset_insert [THEN subsetD])

lemma total_add_share:
  assumes "consistent hs" and "i < length hs"
  shows "total_invested (add_share i hs) = total_invested hs + current_price (hs ! i)"
proof -
  have "total_invested (add_share i hs) =
          total_invested hs - actual_investment (hs ! i)
            + (shares_to_buy (hs ! i) + 1) * current_price (hs ! i)"
    using assms(2) by (simp add: total_invested_def add_share_def Let_def sum_list_map_update)
  also have "actual_investment (hs ! i) = shares_to_buy (hs ! i) * current_price (hs ! i)"
    using assms by (rule consistent_nth)
  finally show ?thesis by (simp add: algebra_simps)
qed

lemma rebalance_loop_invariant:
  assumes "rebalance_loop amount hs = Some hs'"
    and "I hs"
    and "\<And>xs i. I xs \<Longrightarrow> total_invested xs < amount * 0.95 \<Longrightarrow>
           cheapest_affordable (amount - total_invested xs) xs = Some i \<Longrightarrow> I (add_share i xs)"
  shows "I hs'"
proof -
  have "a = amount \<Longrightarrow> I xs \<Longrightarrow> I xs'" if "rebalance_loop a xs = Some xs'" for a xs xs'
    using that
  proof (induction a xs xs' rule: rebalance_loop.raw_induct [rotated 1, consumes 1])
    case (1 loop a xs xs')
    show ?case
    proof (cases "total_invested xs < amount * 0.95")
      case False
      with "1.hyps" "1.prems" show ?thesis by simp
    next
      case True
      show ?thesis
      proof (cases "cheapest_affordable (amount - total_invested xs) xs")
        case None
        with True "1.hyps" "1.prems" show ?thesis by simp
      next
        case (Some i)
        with True "1.hyps" "1.prems" have "loop a (add_share i xs) = Some xs'" by simp
        moreover from "1.prems"(2) True Some have "I (add_share i xs)" by (rule assms(3))
        ultimately show ?thesis using "1.prems"(1) "1.IH" by blast
      qed
    qed
  qed
  with assms(1,2) show ?thesis by blast
qed


lemma rebalance_rounds_loop:
  "rebalance_rounds k amount hs = Some hs' \<Longrightarrow> rebalance_loop amount hs = Some hs'"
proof (induction k arbitrary: hs)
  case 0
  then show ?case
    by (subst rebalance_loop.simps) (auto split: if_splits option.splits)
next
  case (Suc k)
  show ?case
  proof (cases "total_invested hs < amount * 0.95")
    case False
    with Suc.prems show ?thesis by (subst rebalance_loop.simps) simp
  next
    case True
    show ?thesis
    proof (cases "cheapest_affordable (amount - total_invested hs) hs")
      case None
      with True Suc.prems show ?thesis by (subst rebalance_loop.simps) simp
    next
      case (Some i)
      with True Suc.prems have "rebalance_rounds k amount (add_share i hs) = Some hs'" by simp
      then have "rebalance_loop amount (add_share i hs) = Some hs'" by (rule Suc.IH)
      with True Some show ?thesis by (subst rebalance_loop.simps) simp
    qed
  qed
qed

lemma rebalance_rounds_bound:
  assumes "0 < c" and "\<forall>h \<in> set hs. c \<le> current_price h" and "consistent hs"
    and "amount - total_invested hs < (real k + 1) * c"
  shows "\<exists>hs'. rebalance_rounds k amount hs = Some hs'"
  using assms(2-)
proof (induction k arbitrary: hs)
  case 0
  show ?case
  proof (cases "cheapest_affordable (amount - total_invested hs) hs")
    case None
    then show ?thesis by simp
  next
    case (Some i)
    then have "i < length hs" "current_price (hs ! i) \<le> amount - total_invested hs"
      by (rule cheapest_affordable_Some)+
    moreover from this(1) "0.prems"(1) have "c \<le> current_price (hs ! i)" by simp
    ultimately show ?thesis using "0.prems"(3) by simp
  qed
next
  case (Suc k)
  show ?case
  proof (cases "cheapest_affordable (amount - total_invested hs) hs")
    case None
    then show ?thesis by simp
  next
    case (Some i)
    then have i: "i < length hs" by (rule cheapest_affordable_Some)
    with Suc.prems(1) have ci: "c \<le> current_price (hs ! i)" by simp
    have "\<forall>h \<in> set (add_share i hs). c \<le> current_price h"
    proof -
      have "set (map current_price (add_share i hs)) = set (map current_price hs)"
        by (simp only: price_add_share)
      with Suc.prems(1) show ?thesis by (metis (no_types, lifting) image_iff list.set_map)
    qed
    moreover from Suc.prems(2) have "consistent (add_share i hs)"
      by (rule consistent_add_share)
    moreover have "amount - total_invested (add_share i hs) < (real k + 1) * c"
      using Suc.prems(3) ci total_add_share [OF Suc.prems(2) i] by (simp add: algebra_simps)
    ultimately have "\<exists>hs'. rebalance_rounds k amount (add_share i hs) = Some hs'"
      by (rule Suc.IH)
    with Some show ?thesis by simp
  qed
qed

lemma rebalance_loop_exit:
  assumes "rebalance_loop amount hs = Some hs'"
  shows "\<not> total_invested hs' < amount * 0.95
         \<or> cheapest_affordable (amount - total_invested hs') hs' = None"
proof -
  have *: "a = amount \<longrightarrow> \<not> total_invested xs' < amount * 0.95
         \<or> cheapest_affordable (amount - total_invested xs') xs' = None"
    if "rebalance_loop a xs = Some xs'" for a xs xs'
    using that
  proof (induction a xs xs' rule: rebalance_loop.raw_induct [rotated 1, consumes 1])
    case (1 loop a xs xs')
    then show ?case by (auto split: if_splits option.splits)
  qed
  from * [OF assms] show ?thesis by simp
qed

lemma rebalance_loop_diverges:
  assumes "0 < amount" and "consistent hs" and "j < length hs"
    and "current_price (hs ! j) \<le> 0" and "total_invested hs < amount * 0.95"
  shows "rebalance_loop amount hs = None"
proof (rule ccontr)
  assume "rebalance_loop amount hs \<noteq> None"
  then obtain hs' where r: "rebalance_loop amount hs = Some hs'" by auto
  let ?I = "\<lambda>xs. consistent xs \<and> length xs = length hs
              \<and> map current_price xs = map current_price hs
              \<and> total_invested xs < amount * 0.95"
  have "?I hs'" using r
  proof (rule rebalance_loop_invariant)
    show "?I hs" using assms by simp
  next
    fix xs i
    assume I: "?I xs" and c: "cheapest_affordable (amount - total_invested xs) xs = Some i"
    from c have i: "i < length xs" by (rule cheapest_affordable_Some)
    from I assms(3) have jx: "j < length xs" by simp
    from I jx have "current_price (xs ! j) = current_price (hs ! j)"
      by (metis nth_map assms(3))
    with assms(4) have pj: "current_price (xs ! j) \<le> 0" by simp
    moreover from I assms(1) have "0 \<le> amount - total_invested xs" by simp
    ultimately have "current_price (xs ! j) \<le> amount - total_invested xs" by simp
    with c jx have "current_price (xs ! i) \<le> current_price (xs ! j)"
      by (rule cheapest_affordable_Some(3))
    with pj have "current_price (xs ! i) \<le> 0" by simp
    moreover from I i have "total_invested (add_share i xs) = total_invested xs + current_price (xs ! i)"
      by (simp add: total_add_share)
    ultimately have "total_invested (add_share i xs) < amount * 0.95" using I by simp
    with I show "?I (add_share i xs)"
      by (simp add: consistent_add_share length_add_share price_add_share)
  qed
  moreover from this assms(3) have jx: "j < length hs'" by simp
  moreover from calculation have "current_price (hs' ! j) = current_price (hs ! j)"
    by (metis nth_map assms(3))
  moreover from r have "\<not> total_invested hs' < amount * 0.95
         \<or> cheapest_affordable (amount - total_invested hs') hs' = None"
    by (rule rebalance_loop_exit)
  ultimately have "cheapest_affordable (amount - total_invested hs') hs' = None"
    and "current_price (hs' ! j) \<le> amount - total_invested hs'"
    using assms(1,4) by auto
  with jx show False by (auto dest: cheapest_affordable_None)
qed

subsection \<open>Allocation, and the loop after it\<close>

lemma sum_list_share:
  fixes f :: "'a \<Rightarrow> real"
  shows "sum_list (map (\<lambda>r. f r / t * 100) xs) = sum_list (map f xs) / t * 100"
  by (induction xs) (simp_all add: add_divide_distrib distrib_right)

lemma allocation_percentages_value:
  assumes "sel \<noteq> []"
  shows "allocation_percentages sel =
           Inr (map (\<lambda>r. if sum_list (map quality_score sel) = 0 then 100 / real (length sel)
                          else quality_score r / sum_list (map quality_score sel) * 100) sel)"
  using assms by (simp add: allocation_percentages_def Let_def)

lemma allocation_percentages_sum:
  assumes "allocation_percentages sel = Inr pcts"
  shows "sum_list pcts = 100"
proof (cases "sum_list (map quality_score sel) = 0")
  case True
  with assms have "sel \<noteq> []" and "pcts = map (\<lambda>r. 100 / real (length sel)) sel"
    by (auto simp: allocation_percentages_def Let_def split: if_splits)
  then show ?thesis by (simp add: sum_list_triv)
next
  case False
  with assms have "pcts = map (\<lambda>r. quality_score r / sum_list (map quality_score sel) * 100) sel"
    by (simp add: allocation_percentages_def Let_def)
  then have "sum_list pcts
               = sum_list (map quality_score sel) / sum_list (map quality_score sel) * 100"
    by (simp only: sum_list_share)
  with False show ?thesis by simp
qed

lemma allocate_columns:
  assumes "length pcts = length sel"
  shows "map allocation_percentage (map2 (allocate_row amount) sel pcts) = pcts"
    and "map recommended_investment (map2 (allocate_row amount) sel pcts)
           = map (\<lambda>p. amount * p / 100) pcts"
    and "map current_price (map2 (allocate_row amount) sel pcts) = map current_price sel"
  using assms [symmetric]
  by (induction sel pcts rule: list_induct2; simp add: allocate_row_def Let_def)+



lemma allocate_consistent:
  assumes "allocate amount sel = Inr hs"
  shows "consistent hs"
  unfolding consistent_def
proof
  fix h assume "h \<in> set hs"
  with assms obtain r pct where "h = allocate_row amount r pct"
    by (rule holding_is_allocate_row)
  then show "actual_investment h = shares_to_buy h * current_price h"
    by (simp add: allocate_row_def Let_def)
qed




text \<open>
  With positive prices and a spend that is not negative, the loop is left within
  \<open>amount / min_price\<close> rounds, \<open>min_price\<close> the least price of the selection.
\<close>

lemma rebalance_rounds_budget_over_min_price:
  assumes "hs \<noteq> []" and "\<forall>h \<in> set hs. 0 < current_price h" and "consistent hs"
    and "0 \<le> total_invested hs"
  shows "\<exists>hs'. rebalance_rounds (nat \<lfloor>amount / Min (set (map current_price hs))\<rfloor>) amount hs
           = Some hs'"
proof -
  define c where "c = Min (set (map current_price hs))"
  define k where "k = nat \<lfloor>amount / c\<rfloor>"
  from assms(1) have "c \<in> set (map current_price hs)"
    unfolding c_def by (intro Min_in) simp_all
  with assms(2) have "0 < c" by auto
  have low: "\<forall>h \<in> set hs. c \<le> current_price h"
    unfolding c_def by simp
  have "amount / c < real_of_int \<lfloor>amount / c\<rfloor> + 1" by linarith
  also have "\<dots> \<le> real k + 1" unfolding k_def by simp
  finally have "amount < (real k + 1) * c"
    using \<open>0 < c\<close> by (simp add: pos_divide_less_eq)
  with assms(4) have "amount - total_invested hs < (real k + 1) * c" by simp
  with \<open>0 < c\<close> low assms(3) show ?thesis
    unfolding k_def c_def by (intro rebalance_rounds_bound) simp_all
qed

lemma rebalance_consistent:
  assumes "rebalance amount hs = Some hs'" and "consistent hs"
  shows "consistent hs'"
proof (cases "total_invested hs < amount * 0.8")
  case False
  with assms show ?thesis by (simp add: rebalance_def)
next
  case True
  with assms(1) have "rebalance_loop amount hs = Some hs'" by (simp add: rebalance_def)
  then show ?thesis using assms(2)
    by (rule rebalance_loop_invariant) (rule consistent_add_share)
qed


subsection \<open>The method as a whole\<close>

lemma select_top_stocks_empty:
  "candidates (s ! df) = [] \<Longrightarrow> select_top_stocks srt s df amount n = Some (Inr df, s)"
  by (simp add: select_top_stocks_def)

lemma select_top_stocks_run:
  assumes "df < length s" and "candidates (s ! df) \<noteq> []"
  shows "select_top_stocks srt s df amount n =
     (let scored = popularity (candidates (s ! df));
          sel = rank_and_select srt (candidates (s ! df)) n
      in case allocate amount sel of
           Inl e \<Rightarrow> Some (Inl e, s @ [Ranked scored, Ranked (srt scored), Ranked sel])
         | Inr hs \<Rightarrow>
             (case rebalance amount hs of
                None \<Rightarrow> None
              | Some hs' \<Rightarrow>
                  Some (Inr (length s + 2),
                        s @ [Ranked scored, Ranked (srt scored), Holdings hs'])))"
  using assms
  by (simp add: select_top_stocks_def new_frame_def rank_and_select_def Let_def nth_append
      list_update_append
      split: sum.splits option.splits)

subsection \<open>Runs on the example data\<close>




lemma popularity_XY:
  "popularity [cand_X, cand_Y] =
     [\<lparr>symbol = ''X'', current_price = 11000, market_cap = 1000, volume = 1000,
       quality_score = 50, popularity_score = Fin 80\<rparr>,
      \<lparr>symbol = ''Y'', current_price = 1000, market_cap = 1000, volume = 1000,
       quality_score = 50, popularity_score = Fin 80\<rparr>]"
  by (simp add: popularity_def normalized_def cand_X_def cand_Y_def)

lemma allocate_XY: "allocate 10000 (popularity [cand_X, cand_Y]) = Inr [held_X, held_Y 5]"
  by (simp add: popularity_XY allocate_def allocation_percentages_def allocate_row_def
      calculate_shares_def py_int_def held_X_def held_Y_def Let_def)

lemma rebalance_XY: "rebalance 10000 [held_X, held_Y 5] = Some [held_X, held_Y 10]"
  by (simp add: rebalance_def rebalance_loop.simps total_invested_def cheapest_affordable_def
      add_share_def held_X_def held_Y_def Let_def)

lemma select_XY:
  "select_top_stocks sort_ties_first [Stocks [cand_X, cand_Y]] 0 10000 10 =
     Some (Inr 3, [Stocks [cand_X, cand_Y], Ranked (popularity [cand_X, cand_Y]),
                   Ranked (popularity [cand_X, cand_Y]), Holdings [held_X, held_Y 10]])"
proof -
  have s: "sort_ties_first (popularity [cand_X, cand_Y]) = popularity [cand_X, cand_Y]"
    by (simp add: popularity_XY sort_ties_first_def)
  then have "rank_and_select sort_ties_first [cand_X, cand_Y] 10 = popularity [cand_X, cand_Y]"
    by (simp add: rank_and_select_def head_rows_def popularity_XY)
  then show ?thesis
    by (simp add: select_top_stocks_run allocate_XY rebalance_XY s Let_def)
qed

lemma popularity_Z:
  "popularity [cand_Z] =
     [\<lparr>symbol = ''Z'', current_price = 0, market_cap = 2000, volume = 300,
       quality_score = 50, popularity_score = Fin 80\<rparr>]"
  by (simp add: popularity_def normalized_def cand_Z_def)

lemma allocate_Z: "allocate 1000 (popularity [cand_Z]) = Inr [held_Z 0]"
  by (simp add: popularity_Z allocate_def allocation_percentages_def allocate_row_def
      calculate_shares_def held_Z_def Let_def)



subsection \<open>Ranking\<close>





lemma fadd_NaN_right: "fadd x NaN = NaN"
  by (cases x) simp_all

lemma series_max_zero:
  assumes "series_max xs = Fin 0" and "\<forall>x \<in> set xs. 0 \<le> x"
  shows "\<forall>x \<in> set xs. x = 0"
proof (cases xs)
  case Nil
  with assms(1) show ?thesis by simp
next
  case (Cons y ys)
  with assms(1) have "fold max ys y = 0" by simp
  then have "Max (set (y # ys)) = 0" by (simp only: Max.set_eq_fold)
  then have "\<forall>x \<in> set (y # ys). x \<le> 0"
    by (metis List.finite_set Max_ge)
  with assms(2) Cons show ?thesis by fastforce
qed

lemma normalized_zero_max: "normalized 0 (Fin 0) = NaN"
  by (simp add: normalized_def)

lemma popularity_score_of:
  assumes "p \<in> set (popularity df)"
  obtains r where "r \<in> set df"
    and "popularity_score p =
           fadd (fadd (fmul (normalized (market_cap r) (series_max (map market_cap df))) 0.35)
                      (fmul (normalized (volume r) (series_max (map volume df))) 0.25))
                (Fin (quality_score r * 0.40))"
  using assms by (auto simp: popularity_def Let_def)

subsection \<open>Claims\<close>




text \<open>
  Claim C2, as amended. For a selection of two rows, A with price 100 and quality 80 and
  B with price 50 and quality 20, and a budget of 150, the target spends are 120 and 30.
  The budget is below 10000, so the shares are the exact counts rounded to two decimals:
  1.2 for A and 0.6 for B, not one each. The spends are 120 and 30, the total is 150, the
  top-up pass changes nothing and the utilization is 100.
\<close>

theorem scenario_budget_150:
  assumes "current_price a = 100" and "quality_score a = 80"
    and "current_price b = 50" and "quality_score b = 20"
  shows "\<exists>ha hb. allocate 150 [a, b] = Inr [ha, hb]
           \<and> rebalance 150 [ha, hb] = Some [ha, hb]
           \<and> recommended_investment ha = 120 \<and> recommended_investment hb = 30
           \<and> shares_to_buy ha = 6 / 5 \<and> shares_to_buy hb = 3 / 5
           \<and> actual_investment ha = 120 \<and> actual_investment hb = 30
           \<and> total_invested [ha, hb] = 150
           \<and> utilization 150 [ha, hb] = 100"
proof -
  let ?ha = "allocate_row 150 a 80" and ?hb = "allocate_row 150 b 20"
  from assms have "allocation_percentages [a, b] = Inr [80, 20]"
    by (simp add: allocation_percentages_def)
  then have al: "allocate 150 [a, b] = Inr [?ha, ?hb]"
    by (simp add: allocate_def)
  from assms have v: "recommended_investment ?ha = 120" "recommended_investment ?hb = 30"
    "shares_to_buy ?ha = 6 / 5" "shares_to_buy ?hb = 3 / 5"
    "actual_investment ?ha = 120" "actual_investment ?hb = 30"
    by (simp_all add: allocate_row_def calculate_shares_def py_round2_def round_half_even_def
        Let_def)
  then have t: "total_invested [?ha, ?hb] = 150"
    by (simp add: total_invested_def)
  then have "rebalance 150 [?ha, ?hb] = Some [?ha, ?hb]"
    and "utilization 150 [?ha, ?hb] = 100"
    by (simp_all add: rebalance_def utilization_def)
  with al v t show ?thesis by blast
qed

theorem scenario_budget_150_witness:
  "map current_price (popularity [cand_A, cand_B]) = [100, 50]
   \<and> map quality_score (popularity [cand_A, cand_B]) = [80, 20]
   \<and> (\<exists>ha hb. allocate 150 (popularity [cand_A, cand_B]) = Inr [ha, hb]
           \<and> rebalance 150 [ha, hb] = Some [ha, hb]
           \<and> shares_to_buy ha = 6 / 5 \<and> shares_to_buy hb = 3 / 5
           \<and> total_invested [ha, hb] = 150
           \<and> utilization 150 [ha, hb] = 100)"
proof -
  let ?a = "\<lparr>symbol = ''A'', current_price = 100, market_cap = 1000, volume = 500,
       quality_score = 80, popularity_score = Fin (159 / 2)\<rparr>"
  let ?b = "\<lparr>symbol = ''B'', current_price = 50, market_cap = 500, volume = 1000,
       quality_score = 20, popularity_score = Fin (101 / 2)\<rparr>"
  have "current_price ?a = 100" "quality_score ?a = 80" "current_price ?b = 50"
    "quality_score ?b = 20" by simp_all
  from scenario_budget_150 [OF this]
  have "\<exists>ha hb. allocate 150 [?a, ?b] = Inr [ha, hb]
           \<and> rebalance 150 [ha, hb] = Some [ha, hb]
           \<and> shares_to_buy ha = 6 / 5 \<and> shares_to_buy hb = 3 / 5
           \<and> total_invested [ha, hb] = 150
           \<and> utilization 150 [ha, hb] = 100"
    by blast
  then show ?thesis by (simp add: popularity_AB)
qed

text \<open>The shares the method assigns in the scenario are not one each.\<close>

theorem scenario_budget_150_counterexample:
  "map_sum id (map shares_to_buy) (allocate 150 (popularity [cand_A, cand_B]))
     = Inr [6 / 5, 3 / 5]
   \<and> map_sum id (map shares_to_buy) (allocate 150 (popularity [cand_A, cand_B]))
     \<noteq> Inr [1, 1]"
  by (simp add: popularity_AB allocate_def allocation_percentages_def allocate_row_def
      calculate_shares_def py_round2_def round_half_even_def Let_def)

text \<open>
  Claim C3, as amended. On an empty table the method does not raise: it returns the
  table it was given, and creates or changes no object.
\<close>

theorem empty_input_is_returned:
  assumes "candidates (s ! df) = []"
  shows "select_top_stocks srt s df amount n = Some (Inr df, s)"
  using assms by (rule select_top_stocks_empty)

theorem empty_input_is_returned_witness:
  "candidates ([Stocks [cand_A], Stocks []] ! 1) = []
   \<and> select_top_stocks sort_ties_first [Stocks [cand_A], Stocks []] 1 5000 3
       = Some (Inr 1, [Stocks [cand_A], Stocks []])"
proof -
  have e: "candidates ([Stocks [cand_A], Stocks []] ! 1) = []" by simp
  from e empty_input_is_returned [OF e] show ?thesis by simp
qed

text \<open>The call on an empty table returns: its result is an address, not an exception.\<close>

theorem empty_input_counterexample:
  "select_top_stocks sort_ties_first [Stocks []] 0 1000 10 = Some (Inr 0, [Stocks []])"
  by (simp add: select_top_stocks_def)




text \<open>
  Claim C5. For a non-empty selection the allocation succeeds and the allocation
  percentages of its rows add up to 100: each is \<open>100 / N\<close> when the quality scores of
  the selection add up to zero, and the row's quality score over that total, times 100,
  otherwise. (Over the reals the sum is exactly 100.)
\<close>

theorem allocation_percentages_sum_to_100:
  assumes "sel \<noteq> []"
  shows "\<exists>hs. allocate amount sel = Inr hs
           \<and> sum_list (map allocation_percentage hs) = 100
           \<and> map allocation_percentage hs =
               map (\<lambda>r. if sum_list (map quality_score sel) = 0 then 100 / real (length sel)
                         else quality_score r / sum_list (map quality_score sel) * 100) sel"
proof -
  let ?pcts = "map (\<lambda>r. if sum_list (map quality_score sel) = 0 then 100 / real (length sel)
                         else quality_score r / sum_list (map quality_score sel) * 100) sel"
  let ?hs = "map2 (allocate_row amount) sel ?pcts"
  from assms have p: "allocation_percentages sel = Inr ?pcts"
    by (rule allocation_percentages_value)
  have l: "length ?pcts = length sel" by simp
  have c: "map allocation_percentage ?hs = ?pcts"
    using l by (rule allocate_columns)
  from p have s: "sum_list ?pcts = 100" by (rule allocation_percentages_sum)
  show ?thesis
  proof (intro exI conjI)
    show "allocate amount sel = Inr ?hs" by (simp only: allocate_def p sum.case)
    show "sum_list (map allocation_percentage ?hs) = 100" by (simp only: c s)
    show "map allocation_percentage ?hs = ?pcts" by (rule c)
  qed
qed

theorem allocation_percentages_sum_to_100_witness:
  "popularity [cand_A, cand_B] \<noteq> []
   \<and> (\<exists>hs. allocate 150 (popularity [cand_A, cand_B]) = Inr hs
          \<and> sum_list (map allocation_percentage hs) = 100
          \<and> map allocation_percentage hs = [80, 20])"
proof -
  let ?sel = "popularity [cand_A, cand_B]"
  have ne: "?sel \<noteq> []" by (simp add: popularity_AB)
  have v: "map (\<lambda>r. if sum_list (map quality_score ?sel) = 0 then 100 / real (length ?sel)
                    else quality_score r / sum_list (map quality_score ?sel) * 100) ?sel = [80, 20]"
    by (simp add: popularity_AB)
  from allocation_percentages_sum_to_100 [OF ne, of 150]
  have "\<exists>hs. allocate 150 ?sel = Inr hs \<and> sum_list (map allocation_percentage hs) = 100
          \<and> map allocation_percentage hs = [80, 20]"
    unfolding v .
  with ne show ?thesis by (rule conjI)
qed

text \<open>
  Claim C6. The top-up loop does not end on every selection: at a budget of 1000 and the
  one candidate \<open>cand_Z\<close>, whose price is 0, quantization gives no share (the guard on
  a non-positive price), the spend 0 is below 80 percent of the budget, and every round
  of the loop finds the candidate affordable and adds a share that costs nothing. The
  call never returns, and no number of rounds is enough.
\<close>

theorem top_up_loop_never_ends_on_free_candidate:
  "select_top_stocks sort_ties_first [Stocks [cand_Z]] 0 1000 10 = None
   \<and> rebalance 1000 [held_Z 0] = None
   \<and> (\<forall>k. rebalance_rounds k 1000 [held_Z 0] = None)"
proof -
  have d: "rebalance_loop 1000 [held_Z 0] = None"
    by (rule rebalance_loop_diverges [where j = 0])
       (simp_all add: consistent_def total_invested_def held_Z_def)
  then have r: "rebalance 1000 [held_Z 0] = None"
    by (simp add: rebalance_def total_invested_def held_Z_def)
  have "sort_ties_first (popularity [cand_Z]) = popularity [cand_Z]"
    by (simp add: popularity_Z sort_ties_first_def)
  then have "rank_and_select sort_ties_first [cand_Z] 10 = popularity [cand_Z]"
    by (simp add: rank_and_select_def head_rows_def popularity_Z)
  then have "select_top_stocks sort_ties_first [Stocks [cand_Z]] 0 1000 10 = None"
    by (simp add: select_top_stocks_run allocate_Z r Let_def)
  moreover have "rebalance_rounds k 1000 [held_Z 0] = None" for k
  proof (cases "rebalance_rounds k 1000 [held_Z 0]")
    case None
    then show ?thesis .
  next
    case (Some hs')
    then have "rebalance_loop 1000 [held_Z 0] = Some hs'" by (rule rebalance_rounds_loop)
    with d show ?thesis by simp
  qed
  ultimately show ?thesis using r by blast
qed

text \<open>
  Claim C7. At a budget of exactly 10000 every selected candidate is quantized in the
  whole-share regime: no share for a non-positive price; otherwise, with
  \<open>exact = recommended_investment / current_price\<close>, the share count is
  \<open>max 1 (floor exact)\<close> when \<open>exact\<close> is at least one half and \<open>0\<close> below that. The
  count is a whole number; the two-decimal rounding of the small-amount regime is not
  used.
\<close>

theorem budget_10000_whole_share_regime:
  assumes "allocate 10000 sel = Inr hs" and "h \<in> set hs"
  shows "shares_to_buy h =
           (if current_price h \<le> 0 then 0
            else if 1 / 2 \<le> recommended_investment h / current_price h
                 then of_int (max 1 \<lfloor>recommended_investment h / current_price h\<rfloor>)
                 else 0)
         \<and> shares_to_buy h \<in> \<int>"
proof -
  from assms obtain r pct where h: "h = allocate_row 10000 r pct"
    by (rule holding_is_allocate_row)
  have "shares_to_buy h =
          calculate_shares 10000 (current_price h) (recommended_investment h)"
    unfolding h by (rule allocate_row_shares)
  then show ?thesis
    by (simp add: calculate_shares_def Let_def py_int_nonneg)
qed

theorem budget_10000_whole_share_regime_witness:
  "allocate 10000 (popularity [cand_A, cand_B]) =
     Inr (map2 (allocate_row 10000) (popularity [cand_A, cand_B]) [80, 20])
   \<and> shares_to_buy (allocate_row 10000 (hd (popularity [cand_A, cand_B])) 80) = 80
   \<and> shares_to_buy (allocate_row 10000 (hd (popularity [cand_A, cand_B])) 80) \<in> \<int>"
proof -
  let ?sel = "popularity [cand_A, cand_B]"
  let ?h = "allocate_row 10000 (hd ?sel) 80"
  have a: "allocate 10000 ?sel = Inr (map2 (allocate_row 10000) ?sel [80, 20])"
    by (simp add: allocate_def percentages_AB)
  have b: "?h \<in> set (map2 (allocate_row 10000) ?sel [80, 20])"
    by (simp add: popularity_AB)
  have c: "current_price ?h = 100" "recommended_investment ?h = 8000"
    by (simp_all add: popularity_AB allocate_row_def Let_def)
  from budget_10000_whole_share_regime [OF a b] a show ?thesis
    by (simp add: c)
qed

text \<open>
  Claim C8, as amended. The method has no guard for a zero maximum. When the market
  capitalizations and volumes are not negative and the largest market capitalization
  (or the largest volume) is zero, the normalized term is \<open>0 / 0\<close>, not-a-number, for
  every candidate, and so is every popularity score.
\<close>

theorem zero_maximum_gives_not_a_number:
  assumes "\<forall>r \<in> set df. 0 \<le> market_cap r \<and> 0 \<le> volume r"
    and "series_max (map market_cap df) = Fin 0 \<or> series_max (map volume df) = Fin 0"
  shows "(series_max (map market_cap df) = Fin 0 \<longrightarrow>
            (\<forall>r \<in> set df. normalized (market_cap r) (series_max (map market_cap df)) = NaN))
         \<and> (series_max (map volume df) = Fin 0 \<longrightarrow>
            (\<forall>r \<in> set df. normalized (volume r) (series_max (map volume df)) = NaN))
         \<and> (\<forall>p \<in> set (popularity df). popularity_score p = NaN)"
proof -
  have mc: "\<forall>r \<in> set df. normalized (market_cap r) (series_max (map market_cap df)) = NaN"
    if z: "series_max (map market_cap df) = Fin 0"
  proof -
    from assms(1) have "\<forall>x \<in> set (map market_cap df). 0 \<le> x" by simp
    with z have "\<forall>x \<in> set (map market_cap df). x = 0" by (rule series_max_zero)
    with z show ?thesis by (simp add: normalized_zero_max)
  qed
  have vol: "\<forall>r \<in> set df. normalized (volume r) (series_max (map volume df)) = NaN"
    if z: "series_max (map volume df) = Fin 0"
  proof -
    from assms(1) have "\<forall>x \<in> set (map volume df). 0 \<le> x" by simp
    with z have "\<forall>x \<in> set (map volume df). x = 0" by (rule series_max_zero)
    with z show ?thesis by (simp add: normalized_zero_max)
  qed
  have "popularity_score p = NaN" if "p \<in> set (popularity df)" for p
  proof -
    from that obtain r where r: "r \<in> set df"
      and p: "popularity_score p =
           fadd (fadd (fmul (normalized (market_cap r) (series_max (map market_cap df))) 0.35)
                      (fmul (normalized (volume r) (series_max (map volume df))) 0.25))
                (Fin (quality_score r * 0.40))"
      by (rule popularity_score_of)
    from assms(2) show ?thesis
    proof
      assume "series_max (map market_cap df) = Fin 0"
      with mc r have "normalized (market_cap r) (series_max (map market_cap df)) = NaN"
        by simp
      with p show ?thesis by simp
    next
      assume "series_max (map volume df) = Fin 0"
      with vol r have "normalized (volume r) (series_max (map volume df)) = NaN"
        by simp
      with p show ?thesis by (simp add: fadd_NaN_right)
    qed
  qed
  with mc vol show ?thesis by blast
qed

theorem zero_maximum_gives_not_a_number_witness:
  "map market_cap [cand_A\<lparr>market_cap := 0\<rparr>, cand_B\<lparr>market_cap := 0\<rparr>] = [0, 0]
   \<and> map volume [cand_A\<lparr>market_cap := 0\<rparr>, cand_B\<lparr>market_cap := 0\<rparr>] = [500, 1000]
   \<and> series_max (map market_cap [cand_A\<lparr>market_cap := 0\<rparr>, cand_B\<lparr>market_cap := 0\<rparr>]) = Fin 0
   \<and> map popularity_score (popularity [cand_A\<lparr>market_cap := 0\<rparr>, cand_B\<lparr>market_cap := 0\<rparr>])
       = [NaN, NaN]"
proof -
  let ?df = "[cand_A\<lparr>market_cap := 0\<rparr>, cand_B\<lparr>market_cap := 0\<rparr>]"
  have a: "\<forall>r \<in> set ?df. 0 \<le> market_cap r \<and> 0 \<le> volume r"
    by (simp add: cand_A_def cand_B_def)
  have z: "series_max (map market_cap ?df) = Fin 0" by simp
  then have "series_max (map market_cap ?df) = Fin 0 \<or> series_max (map volume ?df) = Fin 0" ..
  from zero_maximum_gives_not_a_number [OF a this]
  have "\<forall>p \<in> set (popularity ?df). popularity_score p = NaN" by blast
  then have "map popularity_score (popularity ?df) = map (\<lambda>p. NaN) (popularity ?df)"
    by simp
  moreover have "length (popularity ?df) = 2" by (simp add: popularity_def Let_def)
  ultimately have "map popularity_score (popularity ?df) = [NaN, NaN]"
    by (simp add: map_replicate_const numeral_2_eq_2)
  with z show ?thesis by (simp add: cand_A_def cand_B_def)
qed

text \<open>
  With every volume zero the normalized volume term is not \<open>Fin 0\<close> but not-a-number,
  and no popularity score is a real number.
\<close>

theorem zero_maximum_counterexample:
  "series_max (map volume [cand_A\<lparr>volume := 0\<rparr>, cand_B\<lparr>volume := 0\<rparr>]) = Fin 0
   \<and> normalized (volume (cand_A\<lparr>volume := 0\<rparr>))
        (series_max (map volume [cand_A\<lparr>volume := 0\<rparr>, cand_B\<lparr>volume := 0\<rparr>])) = NaN
   \<and> map popularity_score (popularity [cand_A\<lparr>volume := 0\<rparr>, cand_B\<lparr>volume := 0\<rparr>])
       = [NaN, NaN]"
  by (simp add: popularity_def normalized_def cand_A_def cand_B_def)

text \<open>
  Claim C9. When the method returns a table for a non-empty input, every row of it has
  \<open>actual_investment = shares_to_buy * current_price\<close>: the rows have it after
  quantization (\<open>consistent hs0\<close>), and the top-up pass, each round of which keeps it
  (lemma \<open>consistent_add_share\<close>), hands it on to the table returned.
\<close>

theorem actual_investment_is_shares_times_price:
  assumes "df < length s" and "candidates (s ! df) \<noteq> []"
    and "select_top_stocks srt s df amount n = Some (Inr r, s')"
  shows "\<exists>hs0 hs. allocate amount (rank_and_select srt (candidates (s ! df)) n) = Inr hs0
           \<and> consistent hs0
           \<and> rebalance amount hs0 = Some hs
           \<and> s' ! r = Holdings hs
           \<and> (\<forall>h \<in> set hs. actual_investment h = shares_to_buy h * current_price h)
           \<and> (\<forall>xs i. consistent xs \<longrightarrow> consistent (add_share i xs))"
proof -
  let ?sel = "rank_and_select srt (candidates (s ! df)) n"
  from assms obtain hs0 hs where a: "allocate amount ?sel = Inr hs0"
    and b: "rebalance amount hs0 = Some hs"
    and r: "r = length s + 2"
    and s': "s' = s @ [Ranked (popularity (candidates (s ! df))),
                       Ranked (srt (popularity (candidates (s ! df)))), Holdings hs]"
    by (auto simp: select_top_stocks_run Let_def split: sum.splits option.splits)
  from a have c0: "consistent hs0" by (rule allocate_consistent)
  with b have "consistent hs" by (rule rebalance_consistent)
  then have "\<forall>h \<in> set hs. actual_investment h = shares_to_buy h * current_price h"
    by (simp add: consistent_def)
  moreover from r s' have "s' ! r = Holdings hs" by (simp add: nth_append)
  moreover have "\<forall>xs i. consistent xs \<longrightarrow> consistent (add_share i xs)"
    by (simp add: consistent_add_share)
  ultimately show ?thesis using a b c0 by blast
qed

theorem actual_investment_is_shares_times_price_witness:
  "(0::nat) < length [Stocks [cand_X, cand_Y]]
   \<and> candidates ([Stocks [cand_X, cand_Y]] ! 0) = [cand_X, cand_Y]
   \<and> select_top_stocks sort_ties_first [Stocks [cand_X, cand_Y]] 0 10000 10 =
       Some (Inr 3, [Stocks [cand_X, cand_Y], Ranked (popularity [cand_X, cand_Y]),
                     Ranked (popularity [cand_X, cand_Y]), Holdings [held_X, held_Y 10]])
   \<and> map actual_investment [held_X, held_Y 10] = [0, 10000]
   \<and> map (\<lambda>h. shares_to_buy h * current_price h) [held_X, held_Y 10] = [0, 10000]"
proof -
  have l: "(0::nat) < length [Stocks [cand_X, cand_Y]]" by simp
  have c: "candidates ([Stocks [cand_X, cand_Y]] ! 0) \<noteq> []" by simp
  from actual_investment_is_shares_times_price [OF l c select_XY]
  have "\<forall>h \<in> set [held_X, held_Y 10]. actual_investment h = shares_to_buy h * current_price h"
    by auto
  then have "map actual_investment [held_X, held_Y 10]
               = map (\<lambda>h. shares_to_buy h * current_price h) [held_X, held_Y 10]"
    by simp
  moreover have "map actual_investment [held_X, held_Y 10] = [0, 10000]"
    by (simp add: held_X_def held_Y_def)
  ultimately show ?thesis using select_XY by simp
qed

text \<open>
  Claim C10. Whenever the method returns, every object that was in the store before the
  call is as it was, the input table among them: the scores, percentages, shares and
  top-up writes all go to objects the call has created.
\<close>

theorem input_table_is_left_unchanged:
  assumes "df < length s"
    and "select_top_stocks srt s df amount n = Some (res, s')"
  shows "take (length s) s' = s \<and> s' ! df = s ! df"
proof (cases "candidates (s ! df) = []")
  case True
  with assms(2) show ?thesis by (simp add: select_top_stocks_empty)
next
  case False
  with assms obtain new where "s' = s @ new"
    by (auto simp: select_top_stocks_run Let_def split: sum.splits option.splits)
  with assms(1) show ?thesis by (simp add: nth_append)
qed

theorem input_table_is_left_unchanged_witness:
  "(0::nat) < length [Stocks [cand_X, cand_Y]]
   \<and> select_top_stocks sort_ties_first [Stocks [cand_X, cand_Y]] 0 10000 10 =
       Some (Inr 3, [Stocks [cand_X, cand_Y], Ranked (popularity [cand_X, cand_Y]),
                     Ranked (popularity [cand_X, cand_Y]), Holdings [held_X, held_Y 10]])
   \<and> [Stocks [cand_X, cand_Y], Ranked (popularity [cand_X, cand_Y]),
       Ranked (popularity [cand_X, cand_Y]), Holdings [held_X, held_Y 10]] ! 0
       = Stocks [cand_X, cand_Y]"
proof -
  have l: "(0::nat) < length [Stocks [cand_X, cand_Y]]" by simp
  from input_table_is_left_unchanged [OF l select_XY] l select_XY show ?thesis by simp
qed

end
